theory Spec2Isabelle
  imports Main
begin

section \<open>The page: elements, class lists, selectors and events\<close>

text \<open>
  The script of the Bankist page drives a document through browser interfaces. The part
  of the document the script reads and writes is modelled as a store: an element is a
  reference, and the store gives each reference its class list (a \<open>DOMTokenList\<close>:
  \<open>add\<close> appends a missing token, \<open>remove\<close> deletes it, \<open>contains\<close> tests it),
  its \<open>data-*\<close> attributes, its \<open>style.transform\<close> and its \<open>src\<close>. Two elements of
  a \<open>NodeList\<close> may be compared by reference, as JavaScript compares objects.
  The chain of proper ancestors of an element (its \<open>parentElement\<close>, then that
  element's, and so on) is part of the document: \<open>closest\<close> walks it.
\<close>

type_synonym elem = nat

record element =
  classList :: "string list"
  dataset :: "(string \<times> string) list"
  transform :: string
  src :: string

record document =
  nodes :: "elem \<Rightarrow> element"
  parentChain :: "elem \<Rightarrow> elem list"

definition classList_contains :: "element \<Rightarrow> string \<Rightarrow> bool" where
  "classList_contains e c = (c \<in> set (classList e))"

definition classList_add :: "string \<Rightarrow> element \<Rightarrow> element" where
  "classList_add c e =
     (if c \<in> set (classList e) then e else e\<lparr>classList := classList e @ [c]\<rparr>)"

definition classList_remove :: "string \<Rightarrow> element \<Rightarrow> element" where
  "classList_remove c e = e\<lparr>classList := removeAll c (classList e)\<rparr>"

definition updateElement ::
  "elem \<Rightarrow> (element \<Rightarrow> element) \<Rightarrow> 'a document_scheme \<Rightarrow> 'a document_scheme" where
  "updateElement r f d = d\<lparr>nodes := (nodes d)(r := f (nodes d r))\<rparr>"

definition hasClass :: "'a document_scheme \<Rightarrow> elem \<Rightarrow> string \<Rightarrow> bool" where
  "hasClass d r c = classList_contains (nodes d r) c"

text \<open>
  Every selector the script uses is a compound of class names: \<open>.nav__link\<close>,
  \<open>.btn.operations__tab\<close>, \<open>.dots__dot\<close>. A selector is the list of the classes it
  asks for. \<open>matches\<close> tests the element itself, \<open>closest\<close> returns the first
  element that matches among the element and its ancestors (\<open>None\<close> is \<open>null\<close>), and
  \<open>querySelector\<close>, \<open>querySelectorAll\<close> search the descendants of the element they
  are called on, given in document order.
\<close>

type_synonym selector = "string list"

definition matches :: "'a document_scheme \<Rightarrow> elem \<Rightarrow> selector \<Rightarrow> bool" where
  "matches d r sel = list_all (\<lambda>c. classList_contains (nodes d r) c) sel"

definition closest :: "'a document_scheme \<Rightarrow> elem \<Rightarrow> selector \<Rightarrow> elem option" where
  "closest d r sel = find (\<lambda>x. matches d x sel) (r # parentChain d r)"

definition querySelectorAll :: "'a document_scheme \<Rightarrow> elem list \<Rightarrow> selector \<Rightarrow> elem list" where
  "querySelectorAll d descendants sel = filter (\<lambda>x. matches d x sel) descendants"

definition querySelector :: "'a document_scheme \<Rightarrow> elem list \<Rightarrow> selector \<Rightarrow> elem option" where
  "querySelector d descendants sel = find (\<lambda>x. matches d x sel) descendants"

text \<open>
  An event carries its target and, for a keyboard event, the key. A listener runs on
  the page and either completes or throws; what it wrote before it threw stays written.
\<close>

record event =
  target :: elem
  key :: string

datatype error = TypeError

datatype 's result = Ok 's | Threw error 's

section \<open>\<open>utils\<close>\<close>

text \<open>
  \<open>delegatedEventListener\<close> returns the listener
  \<open>evt => matchingStrategy(evt) ? onCallback.call(evt.target, evt) : null\<close>.
  The first argument of a callback is the this-value of the call, the second the
  event. A callback written with \<open>function\<close> reads the this-value as \<open>this\<close> (the
  tab callback does); an arrow function does not read it (the callbacks of the
  navigation links and of the dots use the event only).
\<close>

definition delegatedEventListener ::
  "(event \<Rightarrow> 's \<Rightarrow> bool) \<Rightarrow> (elem \<Rightarrow> event \<Rightarrow> 's \<Rightarrow> 's result) \<Rightarrow> event \<Rightarrow> 's \<Rightarrow> 's result" where
  "delegatedEventListener matchingStrategy onCallback evt s =
     (if matchingStrategy evt s then onCallback (target evt) evt s else Ok s)"

definition selectorMatchingStrategy :: "selector \<Rightarrow> event \<Rightarrow> 'a document_scheme \<Rightarrow> bool" where
  "selectorMatchingStrategy sel evt d =
     (matches d (target evt) sel \<or> closest d (target evt) sel \<noteq> None)"

definition delegatedTargetSelectorEventListener ::
  "selector \<Rightarrow> (elem \<Rightarrow> event \<Rightarrow> 'a document_scheme \<Rightarrow> 'a document_scheme result)
     \<Rightarrow> event \<Rightarrow> 'a document_scheme \<Rightarrow> 'a document_scheme result" where
  "delegatedTargetSelectorEventListener sel onCallback =
     delegatedEventListener (selectorMatchingStrategy sel) onCallback"

text \<open>
  \<open>toggleClass\<close> takes a boolean or a function that returns one.
\<close>

datatype isPresent = Boolean bool | Function "unit \<Rightarrow> bool"

definition toggleClass :: "elem \<Rightarrow> string \<Rightarrow> isPresent \<Rightarrow> 'a document_scheme \<Rightarrow> 'a document_scheme" where
  "toggleClass r className p d =
     (let toAdd = (case p of Boolean b \<Rightarrow> b | Function f \<Rightarrow> f ())
      in if toAdd then updateElement r (classList_add className) d
         else updateElement r (classList_remove className) d)"

section \<open>Modal window management\<close>

text \<open>
  \<open>modal\<close> and \<open>overlay\<close> are the elements the two \<open>querySelector\<close> calls of the
  controller found. \<open>openModal\<close> is the click listener of every \<open>.btn--show-modal\<close>,
  \<open>closeModal\<close> the click listener of the close button and of the overlay, and the
  document has a \<open>keydown\<close> listener.
\<close>

record modal_page = document +
  modal :: elem
  overlay :: elem

definition openModal :: "modal_page \<Rightarrow> modal_page" where
  "openModal s =
     (let s1 = updateElement (modal s) (classList_remove ''hidden'') s
      in updateElement (overlay s1) (classList_remove ''hidden'') s1)"

definition closeModal :: "modal_page \<Rightarrow> modal_page" where
  "closeModal s =
     (let s1 = updateElement (modal s) (classList_add ''hidden'') s
      in updateElement (overlay s1) (classList_add ''hidden'') s1)"

definition onKeydown :: "event \<Rightarrow> modal_page \<Rightarrow> modal_page" where
  "onKeydown e s =
     (if key e = ''Escape'' \<and> \<not> classList_contains (nodes s (modal s)) ''hidden''
      then closeModal s else s)"

datatype modal_trigger = ShowModalClick | CloseModalClick | OverlayClick | Keydown event

fun modal_dispatch :: "modal_trigger \<Rightarrow> modal_page \<Rightarrow> modal_page" where
  "modal_dispatch ShowModalClick s = openModal s"
| "modal_dispatch CloseModalClick s = closeModal s"
| "modal_dispatch OverlayClick s = closeModal s"
| "modal_dispatch (Keydown e) s = onKeydown e s"

section \<open>JavaScript numbers and strings of the slider\<close>

text \<open>
  The slider computes with \<open>undefined\<close> (the variable \<open>selectedSlide\<close> before the first
  \<open>goTo\<close>), \<open>NaN\<close> and integers: slide indices, their differences and products with
  100, all far below \<open>2^53\<close>, where a double is an exact integer. \<open>%\<close> is the remainder
  of the truncating division: it has the sign of the dividend, and \<open>NaN\<close> for a zero
  divisor. \<open>===\<close> is false as soon as one side is \<open>NaN\<close>.
\<close>

datatype jsval = Undefined | NaN | Num int

fun js_add :: "jsval \<Rightarrow> jsval \<Rightarrow> jsval" where
  "js_add (Num a) (Num b) = Num (a + b)"
| "js_add _ _ = NaN"

fun js_sub :: "jsval \<Rightarrow> jsval \<Rightarrow> jsval" where
  "js_sub (Num a) (Num b) = Num (a - b)"
| "js_sub _ _ = NaN"

fun js_mul :: "jsval \<Rightarrow> jsval \<Rightarrow> jsval" where
  "js_mul (Num a) (Num b) = Num (a * b)"
| "js_mul _ _ = NaN"

fun js_rem :: "jsval \<Rightarrow> jsval \<Rightarrow> jsval" where
  "js_rem (Num a) (Num b) = (if b = 0 then NaN else Num (sgn a * (\<bar>a\<bar> mod \<bar>b\<bar>)))"
| "js_rem _ _ = NaN"

fun js_strict_eq :: "jsval \<Rightarrow> jsval \<Rightarrow> bool" where
  "js_strict_eq (Num a) (Num b) = (a = b)"
| "js_strict_eq Undefined Undefined = True"
| "js_strict_eq _ _ = False"

text \<open>
  A template literal prints a number in decimal, with a minus sign when it is negative.
  A property that is missing reads as \<open>undefined\<close> and prints as that word.
\<close>

definition digitChar :: "nat \<Rightarrow> char" where
  "digitChar d = ''0123456789'' ! d"

function digits :: "nat \<Rightarrow> string" where
  "digits n = (if n < 10 then [digitChar n] else digits (n div 10) @ [digitChar (n mod 10)])"
  by pat_completeness auto
termination
  by (relation "measure (\<lambda>n. n)") auto

declare digits.simps [simp del]

fun toString :: "jsval \<Rightarrow> string" where
  "toString Undefined = ''undefined''"
| "toString NaN = ''NaN''"
| "toString (Num n) = (if n < 0 then CHR ''-'' # digits (nat (- n)) else digits (nat n))"

definition stringOf :: "string option \<Rightarrow> string" where
  "stringOf v = (case v of None \<Rightarrow> ''undefined'' | Some x \<Rightarrow> x)"

text \<open>
  \<open>parseInt\<close> with one argument: leading white space is skipped, a sign is read, a
  prefix \<open>0x\<close> or \<open>0X\<close> selects radix 16 (radix 10 otherwise), and the longest run of
  digits of the radix is the number; \<open>NaN\<close> when that run is empty. A string is a list
  of bytes here, so the white space skipped is the white space of ASCII.
\<close>

definition isWhiteSpace :: "char \<Rightarrow> bool" where
  "isWhiteSpace c = (c \<in> set [CHR 0x09, CHR 0x0A, CHR 0x0B, CHR 0x0C, CHR 0x0D, CHR 0x20])"

definition digitValue :: "char \<Rightarrow> nat option" where
  "digitValue c = map_of
     [(CHR ''0'', 0), (CHR ''1'', 1), (CHR ''2'', 2), (CHR ''3'', 3), (CHR ''4'', 4),
      (CHR ''5'', 5), (CHR ''6'', 6), (CHR ''7'', 7), (CHR ''8'', 8), (CHR ''9'', 9),
      (CHR ''a'', 10), (CHR ''b'', 11), (CHR ''c'', 12), (CHR ''d'', 13), (CHR ''e'', 14),
      (CHR ''f'', 15), (CHR ''A'', 10), (CHR ''B'', 11), (CHR ''C'', 12), (CHR ''D'', 13),
      (CHR ''E'', 14), (CHR ''F'', 15)] c"

definition isDigit :: "nat \<Rightarrow> char \<Rightarrow> bool" where
  "isDigit radix c = (case digitValue c of None \<Rightarrow> False | Some v \<Rightarrow> v < radix)"

definition digitOf :: "char \<Rightarrow> nat" where
  "digitOf c = (case digitValue c of None \<Rightarrow> 0 | Some v \<Rightarrow> v)"

definition parseInt :: "string \<Rightarrow> jsval" where
  "parseInt str =
     (let s0 = dropWhile isWhiteSpace str;
          negative = (s0 \<noteq> [] \<and> hd s0 = CHR ''-'');
          s1 = (if s0 \<noteq> [] \<and> (hd s0 = CHR ''+'' \<or> hd s0 = CHR ''-'') then tl s0 else s0);
          hex = (take 2 s1 = ''0x'' \<or> take 2 s1 = ''0X'');
          radix = (if hex then 16 else 10);
          s2 = (if hex then drop 2 s1 else s1);
          ds = takeWhile (isDigit radix) s2;
          magnitude = int (foldl (\<lambda>acc c. acc * radix + digitOf c) 0 ds)
      in if ds = [] then NaN else Num (if negative then - magnitude else magnitude))"

text \<open>
  The characters a printed index is made of.
\<close>

definition decimal :: "char \<Rightarrow> bool" where
  "decimal c = (c \<in> set ''0123456789'')"

section \<open>Iterating over a \<open>NodeList\<close>\<close>

text \<open>
  \<open>forEach\<close> calls its callback with each element and its index, in order. A
  listener that throws leaves the page as it was when it threw: \<open>stateOf\<close> is the page
  after a listener, thrown or not.
\<close>

fun forEach :: "(elem \<Rightarrow> nat \<Rightarrow> 's \<Rightarrow> 's) \<Rightarrow> elem list \<Rightarrow> nat \<Rightarrow> 's \<Rightarrow> 's" where
  "forEach f [] i s = s"
| "forEach f (x # xs) i s = forEach f xs (Suc i) (f x i s)"

definition stateOf :: "'s result \<Rightarrow> 's" where
  "stateOf r = (case r of Ok s \<Rightarrow> s | Threw e s \<Rightarrow> s)"

section \<open>Slider management\<close>

text \<open>
  \<open>slides\<close> is the \<open>NodeList\<close> of the \<open>.slide\<close> elements (a \<open>NodeList\<close> holds
  an element once), \<open>dots\<close> the \<open>.dots\<close> container and \<open>dotsContent\<close> the elements
  inside it, in document order.
  Assigning \<open>innerHTML\<close> replaces that content by new elements: their references are
  taken from \<open>freshElem\<close> upwards, the references the page does not use yet.
  \<open>addDots\<close> writes one \<open><div class='dots__dot' data-slide='index'></div>\<close> per slide.
\<close>

record slider_page = document +
  slides :: "elem list"
  dots :: elem
  dotsContent :: "elem list"
  freshElem :: elem
  selectedSlide :: jsval

definition dotClassName :: string where
  "dotClassName = ''dots__dot''"

definition goTo :: "jsval \<Rightarrow> slider_page \<Rightarrow> slider_page" where
  "goTo selected s =
     (let s1 = s\<lparr>selectedSlide := selected\<rparr>;
          s2 = forEach (\<lambda>slide index. updateElement slide (\<lambda>e. e\<lparr>transform :=
                  ''translateX('' @ toString (js_mul (js_sub (Num (int index)) selected) (Num 100)) @ ''%)''\<rparr>))
                (slides s1) 0 s1
      in forEach (\<lambda>dot index. toggleClass dot ''dots__dot--active''
                  (Boolean (js_strict_eq (Num (int index)) selected)))
           (querySelectorAll s2 (dotsContent s2) [dotClassName]) 0 s2)"

definition next_slide :: "slider_page \<Rightarrow> slider_page" where
  "next_slide s =
     goTo (js_rem (js_add (selectedSlide s) (Num 1)) (Num (int (length (slides s))))) s"

definition previous :: "slider_page \<Rightarrow> slider_page" where
  "previous s =
     goTo (js_sub (if js_strict_eq (selectedSlide s) (Num 0) then Num (int (length (slides s)))
                   else selectedSlide s) (Num 1)) s"

definition dotElement :: "nat \<Rightarrow> element" where
  "dotElement index =
     \<lparr>classList = [dotClassName], dataset = [(''slide'', toString (Num (int index)))],
      transform = [], src = []\<rparr>"

definition setInnerHTML :: "element list \<Rightarrow> slider_page \<Rightarrow> slider_page" where
  "setInnerHTML html s =
     s\<lparr>nodes := (\<lambda>r. if freshElem s \<le> r \<and> r < freshElem s + length html
                      then html ! (r - freshElem s) else nodes s r),
       parentChain := (\<lambda>r. if freshElem s \<le> r \<and> r < freshElem s + length html
                      then dots s # parentChain s (dots s) else parentChain s r),
       dotsContent := [freshElem s ..< freshElem s + length html],
       freshElem := freshElem s + length html\<rparr>"

definition addDots :: "slider_page \<Rightarrow> slider_page" where
  "addDots s =
     setInnerHTML (foldl (\<lambda>html index. html @ [dotElement index]) [] [0 ..< length (slides s)]) s"

definition slider_init :: "slider_page \<Rightarrow> slider_page" where
  "slider_init s = goTo (Num 0) (addDots s)"

text \<open>
  The listeners of the slider: the two buttons, \<open>keyup\<close> on the document, and the
  delegated click listener of the slider for the dots.
\<close>

datatype slider_trigger = LeftClick | RightClick | Keyup event | SliderClick event

definition onKeyup :: "event \<Rightarrow> slider_page \<Rightarrow> slider_page" where
  "onKeyup evt s =
     (if key evt = ''ArrowLeft'' then previous s
      else if key evt = ''ArrowRight'' then next_slide s else s)"

definition onDotClick :: "elem \<Rightarrow> event \<Rightarrow> slider_page \<Rightarrow> slider_page result" where
  "onDotClick this evt s =
     Ok (goTo (parseInt (stringOf (map_of (dataset (nodes s (target evt))) ''slide''))) s)"

fun slider_dispatch :: "slider_trigger \<Rightarrow> slider_page \<Rightarrow> slider_page result" where
  "slider_dispatch LeftClick s = Ok (previous s)"
| "slider_dispatch RightClick s = Ok (next_slide s)"
| "slider_dispatch (Keyup evt) s = Ok (onKeyup evt s)"
| "slider_dispatch (SliderClick evt) s =
     delegatedTargetSelectorEventListener [dotClassName] onDotClick evt s"

text \<open>
  A run of the slider: the listeners called one after the other, from the page the
  initialisation leaves. The page has no \<open>.dots__dot\<close> element but the dots that
  \<open>addDots\<close> wrote, and these have no content: a click inside the slider is on one of
  them, or on an element that neither is one nor lies within one.
\<close>

definition clickOnPage :: "slider_trigger \<Rightarrow> slider_page \<Rightarrow> bool" where
  "clickOnPage t s =
     (case t of
        SliderClick evt \<Rightarrow>
          target evt \<in> set (dotsContent s) \<or> \<not> selectorMatchingStrategy [dotClassName] evt s
      | _ \<Rightarrow> True)"

fun slider_run :: "slider_trigger list \<Rightarrow> slider_page \<Rightarrow> slider_page" where
  "slider_run [] s = s"
| "slider_run (t # ts) s = slider_run ts (stateOf (slider_dispatch t s))"

fun clicksOnPage :: "slider_trigger list \<Rightarrow> slider_page \<Rightarrow> bool" where
  "clicksOnPage [] s = True"
| "clicksOnPage (t # ts) s =
     (clickOnPage t s \<and> clicksOnPage ts (stateOf (slider_dispatch t s)))"

text \<open>
  The state of the dots after \<open>addDots\<close>: the content of the container is one element
  per slide, each with the class \<open>dots__dot\<close> and its index in \<open>data-slide\<close>.
\<close>

definition dotsGenerated :: "slider_page \<Rightarrow> bool" where
  "dotsGenerated s =
     (distinct (dotsContent s) \<and>
      map (\<lambda>r. (classList_contains (nodes s r) dotClassName, map_of (dataset (nodes s r)) ''slide''))
        (dotsContent s)
      = map (\<lambda>index. (True, Some (toString (Num (int index))))) [0 ..< length (slides s)])"

text \<open>
  The selected index is an integer from 0 up to, and without, the number of slides.
\<close>

definition indexInRange :: "slider_page \<Rightarrow> bool" where
  "indexInRange s =
     (case selectedSlide s of
        Num i \<Rightarrow> 0 \<le> i \<and> i < int (length (slides s))
      | _ \<Rightarrow> False)"

section \<open>Tab manager\<close>

text \<open>
  \<open>operationsZone\<close> holds the elements inside \<open>.operations\<close> in document order,
  \<open>tabButtons\<close> and \<open>tabs\<close> the two \<open>NodeList\<close>s the controller keeps. The listener is
  the callback of the delegated click listener of the tab container. The panel is
  looked up with the selector \<open>.operations__content--${clickedBtn.dataset.tab}\<close>; for
  a key made of letters, digits, \<open>-\<close> and \<open>_\<close> that is the selector of one class.
\<close>

record tabs_page = document +
  operationsZone :: "elem list"
  tabButtons :: "elem list"
  tabs :: "elem list"

definition tabBtnSelector :: selector where
  "tabBtnSelector = [''btn'', ''operations__tab'']"

definition cssIdent :: "string \<Rightarrow> bool" where
  "cssIdent k = list_all (\<lambda>c. c \<in> set
     ''abcdefghijklmnopqrstuvwxyzABCDEFGHIJKLMNOPQRSTUVWXYZ0123456789-_'') k"

definition onTabClick :: "elem \<Rightarrow> event \<Rightarrow> tabs_page \<Rightarrow> tabs_page result" where
  "onTabClick this evt s =
     (let clickedBtn = closest s this tabBtnSelector;
          s1 = forEach (\<lambda>btn _. updateElement btn (classList_remove ''operations__tab--active''))
                 (tabButtons s) 0 s;
          s2 = forEach (\<lambda>zone _. updateElement zone (classList_remove ''operations__content--active''))
                 (tabs s1) 0 s1
      in case clickedBtn of
           None \<Rightarrow> Threw TypeError s2
         | Some b \<Rightarrow>
             (let s3 = updateElement b (classList_add ''operations__tab--active'') s2;
                  tab = stringOf (map_of (dataset (nodes s3 b)) ''tab'')
              in case querySelector s3 (operationsZone s3) [''operations__content--'' @ tab] of
                   None \<Rightarrow> Threw TypeError s3
                 | Some panel \<Rightarrow>
                     Ok (updateElement panel (classList_add ''operations__content--active'') s3)))"

definition tabContainerClick :: "event \<Rightarrow> tabs_page \<Rightarrow> tabs_page result" where
  "tabContainerClick = delegatedTargetSelectorEventListener tabBtnSelector onTabClick"

text \<open>
  The controller is set up from the document, the elements inside \<open>.operations\<close> and
  the elements inside the tab container.
\<close>

definition tabs_init :: "document \<Rightarrow> elem list \<Rightarrow> elem list \<Rightarrow> tabs_page" where
  "tabs_init d zone container =
     \<lparr>nodes = nodes d, parentChain = parentChain d,
      operationsZone = zone,
      tabButtons = querySelectorAll d container tabBtnSelector,
      tabs = querySelectorAll d zone [''operations__content'']\<rparr>"

section \<open>Image lazy loading\<close>

text \<open>
  The observer keeps the images it observes; its callback receives the entries of one
  notification and reads the first of them (\<open>const [entry] = entries\<close>). Each call that
  finds its entry intersecting adds one \<open>load\<close> listener to the image; the \<open>load\<close>
  event of an image runs the listeners it has.
\<close>

record intersectionEntry =
  entryTarget :: elem
  isIntersecting :: bool

record lazy_page = document +
  observed :: "elem list"
  loadListeners :: "elem \<Rightarrow> nat"

definition lazyLoaderCallback :: "intersectionEntry list \<Rightarrow> lazy_page \<Rightarrow> lazy_page result" where
  "lazyLoaderCallback entries s =
     (case entries of
        [] \<Rightarrow> Threw TypeError s
      | entry # _ \<Rightarrow>
          (let imageElt = entryTarget entry
           in if isIntersecting entry
              then (let s1 = s\<lparr>observed := removeAll imageElt (observed s)\<rparr>;
                        s2 = updateElement imageElt
                               (\<lambda>e. e\<lparr>src := stringOf (map_of (dataset e) ''src'')\<rparr>) s1
                    in Ok (s2\<lparr>loadListeners :=
                               (loadListeners s2)(imageElt := Suc (loadListeners s2 imageElt))\<rparr>))
              else Ok s))"

definition onLoad :: "elem \<Rightarrow> lazy_page \<Rightarrow> lazy_page" where
  "onLoad imageElt s =
     ((\<lambda>d. updateElement imageElt (classList_remove ''lazy-img'') d) ^^ loadListeners s imageElt) s"

section \<open>Example pages\<close>

definition example_element :: "string list \<Rightarrow> element" where
  "example_element cs = \<lparr>classList = cs, dataset = [], transform = [], src = []\<rparr>"

definition example_modal_page :: "bool \<Rightarrow> modal_page" where
  "example_modal_page shown =
     \<lparr>nodes = (\<lambda>_. example_element [])
        (0 := example_element (if shown then [''modal''] else [''modal'', ''hidden'']),
         1 := example_element (if shown then [''overlay''] else [''overlay'', ''hidden''])),
      parentChain = (\<lambda>_. []),
      modal = 0,
      overlay = 1\<rparr>"

text \<open>
  A page that records the calls of a callback, with the \<open>this\<close> of each call, and a
  tab button (element 0) with a \<open>span\<close> inside (element 1), as the page has them.
\<close>

record traced_page = document +
  calls :: "(elem \<times> event) list"

definition recordCall :: "elem \<Rightarrow> event \<Rightarrow> traced_page \<Rightarrow> traced_page result" where
  "recordCall this evt s = Ok (s\<lparr>calls := calls s @ [(this, evt)]\<rparr>)"

definition example_traced_page :: traced_page where
  "example_traced_page =
     \<lparr>nodes = (\<lambda>_. example_element [])(0 := example_element [''btn'', ''operations__tab'']),
      parentChain = (\<lambda>_. [])(1 := [0]),
      calls = []\<rparr>"

text \<open>
  A page with three slides (elements 0, 1 and 2) and an empty \<open>.dots\<close> container
  (element 3), before the slider is initialised.
\<close>

definition example_slider_page :: slider_page where
  "example_slider_page =
     \<lparr>nodes = (\<lambda>_. example_element [])
        (0 := example_element [''slide''], 1 := example_element [''slide''],
         2 := example_element [''slide''], 3 := example_element [''dots'']),
      parentChain = (\<lambda>_. []),
      slides = [0, 1, 2],
      dots = 3,
      dotsContent = [],
      freshElem = 4,
      selectedSlide = Undefined\<rparr>"

text \<open>
  The tabs of the page: the container (element 1) with three buttons (2, 3 and 4), a
  \<open>span\<close> (5) inside the second button, and the three panels (6, 7 and 8); the first
  tab is the active one.
\<close>

definition example_tab_element :: "string list \<Rightarrow> string \<Rightarrow> element" where
  "example_tab_element cs tab =
     \<lparr>classList = cs, dataset = [(''tab'', tab)], transform = [], src = []\<rparr>"

definition example_tabs_document :: document where
  "example_tabs_document =
     \<lparr>nodes = (\<lambda>_. example_element [])
        (1 := example_element [''operations__tab-container''],
         2 := example_tab_element [''btn'', ''operations__tab'', ''operations__tab--active''] ''1'',
         3 := example_tab_element [''btn'', ''operations__tab''] ''2'',
         4 := example_tab_element [''btn'', ''operations__tab''] ''3'',
         6 := example_element [''operations__content'', ''operations__content--1'',
                ''operations__content--active''],
         7 := example_element [''operations__content'', ''operations__content--2''],
         8 := example_element [''operations__content'', ''operations__content--3'']),
      parentChain = (\<lambda>_. [])(1 := [0], 2 := [1, 0], 3 := [1, 0], 4 := [1, 0], 5 := [3, 1, 0],
         6 := [0], 7 := [0], 8 := [0])\<rparr>"

definition example_tabs_page :: tabs_page where
  "example_tabs_page = tabs_init example_tabs_document [1, 2, 3, 5, 4, 6, 7, 8] [2, 3, 5, 4]"

text \<open>
  Two lazy images (elements 1 and 2), both observed, each with its placeholder as
  source and the real source in \<open>data-src\<close>.
\<close>

definition example_lazy_page :: lazy_page where
  "example_lazy_page =
     \<lparr>nodes = (\<lambda>_. example_element [])
        (1 := \<lparr>classList = [''features__img'', ''lazy-img''], dataset = [(''src'', ''img/digital.jpg'')],
                transform = [], src = ''img/digital-lazy.jpg''\<rparr>,
         2 := \<lparr>classList = [''features__img'', ''lazy-img''], dataset = [(''src'', ''img/grow.jpg'')],
                transform = [], src = ''img/grow-lazy.jpg''\<rparr>),
      parentChain = (\<lambda>_. []),
      observed = [1, 2],
      loadListeners = (\<lambda>_. 0)\<rparr>"

section \<open>Class lists and the store\<close>

lemma classList_contains_add:
  "classList_contains (classList_add c e) x = (x = c \<or> classList_contains e x)"
  by (auto simp: classList_contains_def classList_add_def)

lemma classList_contains_remove:
  "classList_contains (classList_remove c e) x = (x \<noteq> c \<and> classList_contains e x)"
  by (auto simp: classList_contains_def classList_remove_def)

lemma classList_add_present:
  "classList_contains e c \<Longrightarrow> classList_add c e = e"
  by (simp add: classList_contains_def classList_add_def)

lemma classList_remove_absent:
  "\<not> classList_contains e c \<Longrightarrow> classList_remove c e = e"
  by (simp add: classList_contains_def classList_remove_def)

lemma nodes_updateElement:
  "nodes (updateElement r f d) x = (if x = r then f (nodes d r) else nodes d x)"
  by (simp add: updateElement_def)

lemma updateElement_same:
  "f (nodes d r) = nodes d r \<Longrightarrow> updateElement r f d = d"
  by (simp add: updateElement_def)

lemma modal_updateElement [simp]:
  "modal (updateElement r f s) = modal s" "overlay (updateElement r f s) = overlay s"
  by (simp_all add: updateElement_def)

lemma hasClass_openModal:
  "hasClass (openModal s) r c =
     (if r = modal s \<or> r = overlay s then c \<noteq> ''hidden'' \<and> hasClass s r c else hasClass s r c)"
  by (auto simp: openModal_def hasClass_def Let_def nodes_updateElement classList_contains_remove)

lemma hasClass_closeModal:
  "hasClass (closeModal s) r c =
     (if r = modal s \<or> r = overlay s then c = ''hidden'' \<or> hasClass s r c else hasClass s r c)"
  by (auto simp: closeModal_def hasClass_def Let_def nodes_updateElement classList_contains_add)

lemma modal_openModal [simp]: "modal (openModal s) = modal s" "overlay (openModal s) = overlay s"
  by (simp_all add: openModal_def Let_def)

lemma modal_closeModal [simp]: "modal (closeModal s) = modal s" "overlay (closeModal s) = overlay s"
  by (simp_all add: closeModal_def Let_def)

section \<open>The modal\<close>

lemma modal_dispatch_refs:
  "modal (modal_dispatch t s) = modal s \<and> overlay (modal_dispatch t s) = overlay s"
  by (cases t) (simp_all add: onKeydown_def)

lemma modal_run_refs:
  "modal (fold modal_dispatch ts s) = modal s \<and> overlay (fold modal_dispatch ts s) = overlay s"
  by (induction ts arbitrary: s) (simp_all add: modal_dispatch_refs)

lemma openModal_shown:
  "\<not> hasClass s (modal s) ''hidden'' \<Longrightarrow> \<not> hasClass s (overlay s) ''hidden'' \<Longrightarrow> openModal s = s"
  by (simp add: openModal_def Let_def hasClass_def updateElement_same classList_remove_absent)

lemma closeModal_hidden:
  "hasClass s (modal s) ''hidden'' \<Longrightarrow> hasClass s (overlay s) ''hidden'' \<Longrightarrow> closeModal s = s"
  by (simp add: closeModal_def Let_def hasClass_def updateElement_same classList_add_present)

text \<open>
  Claim C7. While the modal carries \<open>hidden\<close>, a \<open>keydown\<close> event (the Escape key
  included) leaves the whole page as it is. While the modal does not carry \<open>hidden\<close>,
  a click on the overlay, a click on the close button and the Escape key each leave
  \<open>hidden\<close> on the modal and on the overlay.
\<close>

theorem escape_noop_and_close_triggers:
  "(hasClass s (modal s) ''hidden'' \<longrightarrow> modal_dispatch (Keydown e) s = s) \<and>
   (\<not> hasClass s (modal s) ''hidden'' \<and>
      (t = OverlayClick \<or> t = CloseModalClick \<or> t = Keydown \<lparr>target = x, key = ''Escape''\<rparr>) \<longrightarrow>
        hasClass (modal_dispatch t s) (modal s) ''hidden'' \<and>
        hasClass (modal_dispatch t s) (overlay s) ''hidden'')"
  by (auto simp: onKeydown_def hasClass_closeModal hasClass_def [symmetric])

theorem escape_noop_and_close_triggers_witness:
  "modal_dispatch (Keydown \<lparr>target = 0, key = ''Escape''\<rparr>) (example_modal_page False)
     = example_modal_page False \<and>
   hasClass (modal_dispatch OverlayClick (example_modal_page True)) 0 ''hidden'' \<and>
   hasClass (modal_dispatch OverlayClick (example_modal_page True)) 1 ''hidden'' \<and>
   hasClass (modal_dispatch (Keydown \<lparr>target = 0, key = ''Escape''\<rparr>) (example_modal_page True)) 0 ''hidden'' \<and>
   hasClass (modal_dispatch (Keydown \<lparr>target = 0, key = ''Escape''\<rparr>) (example_modal_page True)) 1 ''hidden''"
  using escape_noop_and_close_triggers [of "example_modal_page False" "\<lparr>target = 0, key = ''Escape''\<rparr>"]
    escape_noop_and_close_triggers [of "example_modal_page True" _ OverlayClick]
    escape_noop_and_close_triggers [of "example_modal_page True" _ "Keydown \<lparr>target = 0, key = ''Escape''\<rparr>" 0]
  by (simp add: example_modal_page_def example_element_def hasClass_def classList_contains_def)

text \<open>
  Claim C9. \<open>openModal\<close> leaves \<open>hidden\<close> on neither the modal nor the overlay,
  \<open>closeModal\<close> leaves it on both, and when the two agree on \<open>hidden\<close> at the start
  they agree after any sequence of the controller's listeners.
\<close>

theorem modal_and_overlay_agree:
  "\<not> hasClass (openModal s) (modal s) ''hidden'' \<and> \<not> hasClass (openModal s) (overlay s) ''hidden'' \<and>
   hasClass (closeModal s) (modal s) ''hidden'' \<and> hasClass (closeModal s) (overlay s) ''hidden'' \<and>
   (hasClass s (modal s) ''hidden'' = hasClass s (overlay s) ''hidden'' \<longrightarrow>
      hasClass (fold modal_dispatch ts s) (modal s) ''hidden'' =
      hasClass (fold modal_dispatch ts s) (overlay s) ''hidden'')"
proof -
  have step: "hasClass (modal_dispatch t s') (modal s') ''hidden'' =
      hasClass (modal_dispatch t s') (overlay s') ''hidden''"
    if "hasClass s' (modal s') ''hidden'' = hasClass s' (overlay s') ''hidden''" for t s'
    using that by (cases t) (simp_all add: hasClass_openModal hasClass_closeModal onKeydown_def)
  have run: "hasClass s (modal s) ''hidden'' = hasClass s (overlay s) ''hidden'' \<Longrightarrow>
      hasClass (fold modal_dispatch ts s) (modal s) ''hidden'' =
      hasClass (fold modal_dispatch ts s) (overlay s) ''hidden''"
  proof (induction ts arbitrary: s)
    case Nil
    then show ?case by simp
  next
    case (Cons t ts)
    from Cons.IH [of "modal_dispatch t s"] step [OF Cons.prems, of t]
    show ?case by (simp add: modal_dispatch_refs)
  qed
  show ?thesis
    using run by (simp add: hasClass_openModal hasClass_closeModal)
qed

theorem modal_and_overlay_agree_witness:
  "hasClass (fold modal_dispatch
      [ShowModalClick, Keydown \<lparr>target = 0, key = ''Escape''\<rparr>, ShowModalClick, OverlayClick]
      (example_modal_page False)) 0 ''hidden'' =
   hasClass (fold modal_dispatch
      [ShowModalClick, Keydown \<lparr>target = 0, key = ''Escape''\<rparr>, ShowModalClick, OverlayClick]
      (example_modal_page False)) 1 ''hidden''"
  using modal_and_overlay_agree [of "example_modal_page False"
      "[ShowModalClick, Keydown \<lparr>target = 0, key = ''Escape''\<rparr>, ShowModalClick, OverlayClick]"]
  by (simp add: example_modal_page_def example_element_def hasClass_def classList_contains_def)

text \<open>
  Claim C10. \<open>openModal\<close> and \<open>closeModal\<close> are idempotent. On a page whose modal and
  overlay are both shown, a click on an open button changes nothing; on a page where
  both carry \<open>hidden\<close>, a click on the close button, a click on the overlay and any
  \<open>keydown\<close> change nothing.
\<close>

theorem openModal_closeModal_idempotent:
  "openModal (openModal s) = openModal s \<and> closeModal (closeModal s) = closeModal s \<and>
   (\<not> hasClass s (modal s) ''hidden'' \<and> \<not> hasClass s (overlay s) ''hidden'' \<longrightarrow>
      modal_dispatch ShowModalClick s = s) \<and>
   (hasClass s (modal s) ''hidden'' \<and> hasClass s (overlay s) ''hidden'' \<longrightarrow>
      modal_dispatch CloseModalClick s = s \<and> modal_dispatch OverlayClick s = s \<and>
      modal_dispatch (Keydown e) s = s)"
proof -
  have "openModal (openModal s) = openModal s"
    by (rule openModal_shown) (simp_all add: hasClass_openModal)
  moreover have "closeModal (closeModal s) = closeModal s"
    by (rule closeModal_hidden) (simp_all add: hasClass_closeModal)
  ultimately show ?thesis
    by (simp add: openModal_shown closeModal_hidden onKeydown_def)
qed

theorem openModal_closeModal_idempotent_witness:
  "modal_dispatch ShowModalClick (example_modal_page True) = example_modal_page True \<and>
   modal_dispatch CloseModalClick (example_modal_page False) = example_modal_page False \<and>
   modal_dispatch OverlayClick (example_modal_page False) = example_modal_page False"
  using openModal_closeModal_idempotent [of "example_modal_page True"]
    openModal_closeModal_idempotent [of "example_modal_page False"]
  by (simp add: example_modal_page_def example_element_def hasClass_def classList_contains_def)

section \<open>The delegated listener\<close>

lemma closest_Some:
  "closest d r sel = Some m \<Longrightarrow> matches d m sel \<and> m \<in> set (r # parentChain d r)"
  unfolding closest_def by (metis find_Some_iff nth_mem)

lemma closest_self: "matches d r sel \<Longrightarrow> closest d r sel = Some r"
  by (simp add: closest_def)

lemma selectorMatchingStrategy_closest:
  "selectorMatchingStrategy sel evt d = (closest d (target evt) sel \<noteq> None)"
  by (auto simp: selectorMatchingStrategy_def closest_self)

lemma closest_nearest:
  assumes "closest d r sel = Some m"
  shows "\<exists>i < length (r # parentChain d r).
           (r # parentChain d r) ! i = m \<and> (\<forall>j < i. \<not> matches d ((r # parentChain d r) ! j) sel)"
  using assms unfolding closest_def find_Some_iff by blast

lemma closest_None:
  "(closest d r sel = None) = (\<not> (\<exists>x. x \<in> set (r # parentChain d r) \<and> matches d x sel))"
  unfolding closest_def find_None_iff by blast

lemma selectorMatchingStrategy_chain:
  "selectorMatchingStrategy sel evt d =
     (\<exists>x. x \<in> set (target evt # parentChain d (target evt)) \<and> matches d x sel)"
  unfolding selectorMatchingStrategy_closest closest_None by simp

text \<open>
  Claim C1, as the code has it. The listener calls the callback exactly when the
  predicate holds of the event, once, as \<open>onCallback.call(evt.target, evt)\<close>: the
  this-value of the call is the target of the event and the event is the argument;
  when the predicate fails it returns the page unchanged. For the selector form the
  predicate holds exactly when the target or one of its ancestors matches the
  selector, so a matching proper ancestor is enough. The matched element is what
  \<open>closest\<close> returns: it matches the selector and is the nearest such element from the
  target upwards, no element of the chain before it matches. It is the target, the
  this-value of the call, exactly when the target itself matches.
\<close>

theorem delegated_listener_contract:
  "(matchingStrategy evt s \<longrightarrow>
      delegatedEventListener matchingStrategy onCallback evt s = onCallback (target evt) evt s) \<and>
   (\<not> matchingStrategy evt s \<longrightarrow> delegatedEventListener matchingStrategy onCallback evt s = Ok s) \<and>
   (predicate evt t \<longrightarrow>
      delegatedEventListener predicate recordCall evt t = Ok (t\<lparr>calls := calls t @ [(target evt, evt)]\<rparr>)) \<and>
   (\<not> predicate evt t \<longrightarrow> delegatedEventListener predicate recordCall evt t = Ok t) \<and>
   selectorMatchingStrategy sel evt d =
     (\<exists>x. x \<in> set (target evt # parentChain d (target evt)) \<and> matches d x sel) \<and>
   (a \<in> set (parentChain d (target evt)) \<and> matches d a sel \<longrightarrow> selectorMatchingStrategy sel evt d) \<and>
   selectorMatchingStrategy sel evt d = (closest d (target evt) sel \<noteq> None) \<and>
   matches d (target evt) sel = (closest d (target evt) sel = Some (target evt)) \<and>
   (closest d (target evt) sel = Some m \<longrightarrow>
      matches d m sel \<and>
      (\<exists>i < length (target evt # parentChain d (target evt)).
         (target evt # parentChain d (target evt)) ! i = m \<and>
         (\<forall>j < i. \<not> matches d ((target evt # parentChain d (target evt)) ! j) sel)) \<and>
      delegatedTargetSelectorEventListener sel callback evt d = callback (target evt) evt d) \<and>
   (closest d (target evt) sel = None \<longrightarrow>
      delegatedTargetSelectorEventListener sel callback evt d = Ok d)"
proof -
  have l1: "matchingStrategy evt s \<longrightarrow>
      delegatedEventListener matchingStrategy onCallback evt s = onCallback (target evt) evt s"
    by (simp add: delegatedEventListener_def)
  have l2: "\<not> matchingStrategy evt s \<longrightarrow>
      delegatedEventListener matchingStrategy onCallback evt s = Ok s"
    by (simp add: delegatedEventListener_def)
  have l3: "predicate evt t \<longrightarrow>
      delegatedEventListener predicate recordCall evt t =
        Ok (t\<lparr>calls := calls t @ [(target evt, evt)]\<rparr>)"
    by (simp add: delegatedEventListener_def recordCall_def)
  have l4: "\<not> predicate evt t \<longrightarrow> delegatedEventListener predicate recordCall evt t = Ok t"
    by (simp add: delegatedEventListener_def)
  have cl: "selectorMatchingStrategy sel evt d = (closest d (target evt) sel \<noteq> None)"
    by (rule selectorMatchingStrategy_closest)
  have chain: "selectorMatchingStrategy sel evt d =
      (\<exists>x. x \<in> set (target evt # parentChain d (target evt)) \<and> matches d x sel)"
    by (rule selectorMatchingStrategy_chain)
  have ancestor: "a \<in> set (parentChain d (target evt)) \<and> matches d a sel \<longrightarrow>
      selectorMatchingStrategy sel evt d"
    unfolding chain by auto
  have self: "matches d (target evt) sel = (closest d (target evt) sel = Some (target evt))"
    using closest_self [of d "target evt" sel] closest_Some [of d "target evt" sel "target evt"]
    by blast
  have found: "closest d (target evt) sel = Some m \<longrightarrow>
      matches d m sel \<and>
      (\<exists>i < length (target evt # parentChain d (target evt)).
         (target evt # parentChain d (target evt)) ! i = m \<and>
         (\<forall>j < i. \<not> matches d ((target evt # parentChain d (target evt)) ! j) sel)) \<and>
      delegatedTargetSelectorEventListener sel callback evt d = callback (target evt) evt d"
  proof
    assume m: "closest d (target evt) sel = Some m"
    then have "selectorMatchingStrategy sel evt d"
      by (simp add: selectorMatchingStrategy_closest)
    then have "delegatedTargetSelectorEventListener sel callback evt d = callback (target evt) evt d"
      by (simp add: delegatedTargetSelectorEventListener_def delegatedEventListener_def)
    with closest_Some [OF m] closest_nearest [OF m]
    show "matches d m sel \<and>
      (\<exists>i < length (target evt # parentChain d (target evt)).
         (target evt # parentChain d (target evt)) ! i = m \<and>
         (\<forall>j < i. \<not> matches d ((target evt # parentChain d (target evt)) ! j) sel)) \<and>
      delegatedTargetSelectorEventListener sel callback evt d = callback (target evt) evt d"
      by blast
  qed
  have none: "closest d (target evt) sel = None \<longrightarrow>
      delegatedTargetSelectorEventListener sel callback evt d = Ok d"
    by (simp add: delegatedTargetSelectorEventListener_def delegatedEventListener_def
        selectorMatchingStrategy_closest)
  show ?thesis
    by (intro conjI; rule l1 l2 l3 l4 chain ancestor cl self found none)
qed

theorem delegated_listener_contract_witness:
  "selectorMatchingStrategy tabBtnSelector \<lparr>target = 1, key = []\<rparr> example_traced_page \<and>
   delegatedTargetSelectorEventListener tabBtnSelector recordCall \<lparr>target = 1, key = []\<rparr> example_traced_page
     = recordCall 1 \<lparr>target = 1, key = []\<rparr> example_traced_page \<and>
   matches example_traced_page 0 tabBtnSelector \<and>
   delegatedEventListener (selectorMatchingStrategy tabBtnSelector) recordCall \<lparr>target = 0, key = []\<rparr> example_traced_page
     = Ok (example_traced_page\<lparr>calls := [(0, \<lparr>target = 0, key = []\<rparr>)]\<rparr>) \<and>
   delegatedTargetSelectorEventListener tabBtnSelector recordCall \<lparr>target = 2, key = []\<rparr> example_traced_page
     = Ok example_traced_page"
proof -
  have c: "closest example_traced_page 0 tabBtnSelector = Some 0"
    "closest example_traced_page 1 tabBtnSelector = Some 0"
    "closest example_traced_page 2 tabBtnSelector = None"
    "matches example_traced_page 0 tabBtnSelector"
    "parentChain example_traced_page 1 = [0]"
    "calls example_traced_page = []"
    by (simp_all add: example_traced_page_def example_element_def tabBtnSelector_def closest_def
        matches_def classList_contains_def)
  note t = delegated_listener_contract [where sel = tabBtnSelector and d = example_traced_page
      and t = example_traced_page and predicate = "selectorMatchingStrategy tabBtnSelector"
      and callback = recordCall and a = 0 and m = 0
      and matchingStrategy = "selectorMatchingStrategy tabBtnSelector" and s = example_traced_page
      and onCallback = recordCall]
  from c t [where evt = "\<lparr>target = 0, key = []\<rparr>"] t [where evt = "\<lparr>target = 1, key = []\<rparr>"]
    t [where evt = "\<lparr>target = 2, key = []\<rparr>"]
  show ?thesis
    by (auto simp: recordCall_def)
qed

text \<open>
  Claim C1 as the specification states it fails: a click on the \<open>span\<close> inside a tab
  button is handled, the element that satisfies the selector is the button (element 0),
  and the callback is called with the \<open>span\<close> (element 1) as this-value, which does
  not satisfy the selector.
\<close>

theorem this_is_not_the_matched_element:
  "delegatedTargetSelectorEventListener tabBtnSelector recordCall \<lparr>target = 1, key = []\<rparr> example_traced_page
     = Ok (example_traced_page\<lparr>calls := [(1, \<lparr>target = 1, key = []\<rparr>)]\<rparr>) \<and>
   closest example_traced_page 1 tabBtnSelector = Some 0 \<and>
   \<not> matches example_traced_page 1 tabBtnSelector"
  by (simp add: delegatedTargetSelectorEventListener_def delegatedEventListener_def recordCall_def
      selectorMatchingStrategy_def example_traced_page_def example_element_def tabBtnSelector_def
      closest_def matches_def classList_contains_def)

section \<open>The slider: the selected index\<close>

lemma forEach_preserves:
  assumes "\<And>x i s. g (f x i s) = g s"
  shows "g (forEach f xs i s) = g s"
  by (induction xs arbitrary: i s) (simp_all add: assms)

lemma slider_updateElement [simp]:
  "selectedSlide (updateElement r f s) = selectedSlide s"
  "slides (updateElement r f s) = slides s"
  "dots (updateElement r f s) = dots s"
  "dotsContent (updateElement r f s) = dotsContent s"
  "freshElem (updateElement r f s) = freshElem s"
  by (simp_all add: updateElement_def)

lemma parentChain_updateElement [simp]:
  "parentChain (updateElement r f d) = parentChain d"
  by (simp add: updateElement_def)

lemma slider_toggleClass [simp]:
  "selectedSlide (toggleClass r c p s) = selectedSlide s"
  "slides (toggleClass r c p s) = slides s"
  "dots (toggleClass r c p s) = dots s"
  "dotsContent (toggleClass r c p s) = dotsContent s"
  "freshElem (toggleClass r c p s) = freshElem s"
  "parentChain (toggleClass r c p s) = parentChain s"
  by (simp_all add: toggleClass_def Let_def)

lemma goTo_fields:
  "selectedSlide (goTo x s) = x"
  "slides (goTo x s) = slides s"
  "dots (goTo x s) = dots s"
  "dotsContent (goTo x s) = dotsContent s"
  "freshElem (goTo x s) = freshElem s"
  "parentChain (goTo x s) = parentChain s"
  by (simp_all add: goTo_def Let_def forEach_preserves)

lemma next_slide_fields:
  "slides (next_slide s) = slides s" "dotsContent (next_slide s) = dotsContent s"
  by (simp_all add: next_slide_def goTo_fields)

lemma previous_fields:
  "slides (previous s) = slides s" "dotsContent (previous s) = dotsContent s"
  by (simp_all add: previous_def goTo_fields)

lemma js_rem_index:
  assumes "i < n"
  shows "js_rem (js_add (Num (int i)) (Num 1)) (Num (int n)) = Num (int ((i + 1) mod n))"
proof -
  have "int n \<noteq> 0" using assms by linarith
  moreover have "sgn (int i + 1) = 1" by simp
  moreover have "\<bar>int i + 1\<bar> mod \<bar>int n\<bar> = int ((i + 1) mod n)"
    by (simp add: zmod_int add.commute)
  ultimately show ?thesis by simp
qed

lemma next_slide_index:
  assumes "selectedSlide s = Num (int i)" "i < length (slides s)"
  shows "selectedSlide (next_slide s) = Num (int ((i + 1) mod length (slides s)))"
  using assms(1) js_rem_index [OF assms(2)] by (simp add: next_slide_def goTo_fields)

lemma previous_index:
  assumes "selectedSlide s = Num (int i)" "i < length (slides s)"
  shows "selectedSlide (previous s) = Num (int (if i = 0 then length (slides s) - 1 else i - 1))"
  using assms by (auto simp: previous_def goTo_fields)

lemma next_slide_funpow:
  assumes "selectedSlide s = Num (int i)" "i < length (slides s)"
  shows "slides ((next_slide ^^ k) s) = slides s \<and>
         selectedSlide ((next_slide ^^ k) s) = Num (int ((i + k) mod length (slides s)))"
proof (induction k)
  case 0
  with assms show ?case by simp
next
  case (Suc k)
  let ?t = "(next_slide ^^ k) s"
  have "0 < length (slides s)"
    using assms(2) by linarith
  then have "(i + k) mod length (slides s) < length (slides ?t)"
    using Suc by (simp only: mod_less_divisor)
  with Suc next_slide_index [of ?t "(i + k) mod length (slides s)"]
  show ?case by (simp add: next_slide_fields mod_Suc_eq)
qed

lemma slides_addDots [simp]: "slides (addDots s) = slides s"
  by (simp add: addDots_def setInnerHTML_def)

lemma example_slider_init:
  "length (slides (slider_init example_slider_page)) = 3"
  "selectedSlide (slider_init example_slider_page) = Num (int 0)"
  by (simp_all add: slider_init_def goTo_fields example_slider_page_def)

text \<open>
  Claim C5. With at least one slide and the selected index \<open>i\<close> below the number \<open>N\<close>
  of slides, \<open>next\<close> selects \<open>(i + 1) mod N\<close>, and \<open>N\<close> calls of \<open>next\<close> select \<open>i\<close>
  again.
\<close>

theorem next_is_cyclic:
  assumes "1 \<le> length (slides s)" "selectedSlide s = Num (int i)" "i < length (slides s)"
  shows "selectedSlide (next_slide s) = Num (int ((i + 1) mod length (slides s))) \<and>
         selectedSlide ((next_slide ^^ length (slides s)) s) = Num (int i)"
  using next_slide_index [OF assms(2,3)] next_slide_funpow [OF assms(2,3), of "length (slides s)"] assms(3)
  by simp

theorem next_is_cyclic_witness:
  "selectedSlide (next_slide (slider_init example_slider_page)) = Num 1 \<and>
   selectedSlide ((next_slide ^^ 3) (slider_init example_slider_page)) = Num 0"
  using next_is_cyclic [of "slider_init example_slider_page" 0]
  by (simp add: example_slider_init)

text \<open>
  Claim C6. With at least one slide and the selected index \<open>i\<close> below the number \<open>N\<close>
  of slides, \<open>previous\<close> selects \<open>N - 1\<close> when \<open>i = 0\<close> and \<open>i - 1\<close> otherwise;
  \<open>previous\<close> after \<open>next\<close>, and \<open>next\<close> after \<open>previous\<close>, select \<open>i\<close> again.
\<close>

theorem previous_undoes_next:
  assumes "1 \<le> length (slides s)" "selectedSlide s = Num (int i)" "i < length (slides s)"
  shows "selectedSlide (previous s) = Num (int (if i = 0 then length (slides s) - 1 else i - 1)) \<and>
         selectedSlide (previous (next_slide s)) = Num (int i) \<and>
         selectedSlide (next_slide (previous s)) = Num (int i)"
proof -
  let ?n = "length (slides s)"
  have p: "selectedSlide (previous s) = Num (int (if i = 0 then ?n - 1 else i - 1))"
    by (rule previous_index [OF assms(2,3)])
  have n: "selectedSlide (next_slide s) = Num (int ((i + 1) mod ?n))"
    by (rule next_slide_index [OF assms(2,3)])
  have pos: "0 < ?n"
    using assms(3) by linarith
  then have "(i + 1) mod ?n < length (slides (next_slide s))"
    by (simp only: next_slide_fields mod_less_divisor)
  from previous_index [OF n this]
  have pn: "selectedSlide (previous (next_slide s)) = Num (int i)"
    using assms(3) by (cases "Suc i = ?n") (simp_all add: next_slide_fields)
  have "(if i = 0 then ?n - 1 else i - 1) < length (slides (previous s))"
    using pos assms(3) by (auto simp: previous_fields)
  from next_slide_index [OF p this]
  have np: "selectedSlide (next_slide (previous s)) = Num (int i)"
    using assms(3) by (cases "i = 0") (simp_all add: previous_fields)
  from p pn np show ?thesis by simp
qed

theorem previous_undoes_next_witness:
  "selectedSlide (previous (slider_init example_slider_page)) = Num 2 \<and>
   selectedSlide (previous (next_slide (slider_init example_slider_page))) = Num 0 \<and>
   selectedSlide (next_slide (previous (slider_init example_slider_page))) = Num 0"
  using previous_undoes_next [of "slider_init example_slider_page" 0]
  by (simp add: example_slider_init)

section \<open>Printing and parsing an index\<close>

lemma digitChar_all:
  "list_all (\<lambda>d. digitValue (digitChar d) = Some d \<and> decimal (digitChar d)) [0, 1, 2, 3, 4, 5, 6, 7, 8, 9]"
  by (simp add: digitChar_def digitValue_def decimal_def)

lemma digitChar_cases:
  assumes "d < 10"
  shows "digitValue (digitChar d) = Some d \<and> decimal (digitChar d)"
proof -
  from assms have "d \<in> set [0, 1, 2, 3, 4, 5, 6, 7, 8, 9]" by auto
  with digitChar_all show ?thesis
    unfolding list_all_iff by blast
qed

lemma decimal_all:
  "list_all (\<lambda>c. isDigit 10 c \<and> \<not> isWhiteSpace c \<and> c \<noteq> CHR ''-'' \<and> c \<noteq> CHR ''+'' \<and>
      c \<noteq> CHR ''x'' \<and> c \<noteq> CHR ''X'') ''0123456789''"
  by (simp add: isDigit_def digitValue_def isWhiteSpace_def)

lemma decimal_props:
  assumes "decimal c"
  shows "isDigit 10 c" "\<not> isWhiteSpace c" "c \<noteq> CHR ''-''" "c \<noteq> CHR ''+''"
    "c \<noteq> CHR ''x''" "c \<noteq> CHR ''X''"
  using decimal_all assms unfolding decimal_def list_all_iff by blast+

lemma digits_decimal: "list_all decimal (digits n) \<and> digits n \<noteq> []"
proof (induction n rule: digits.induct)
  case (1 n)
  show ?case
  proof (cases "n < 10")
    case True
    then show ?thesis by (subst (1 2) digits.simps) (simp add: digitChar_cases)
  next
    case False
    with 1 show ?thesis by (subst (1 2) digits.simps) (simp add: digitChar_cases)
  qed
qed

lemma digits_value: "foldl (\<lambda>acc c. acc * 10 + digitOf c) 0 (digits n) = n"
proof (induction n rule: digits.induct)
  case (1 n)
  show ?case
  proof (cases "n < 10")
    case True
    then show ?thesis
      using digitChar_cases [of n] by (subst digits.simps) (simp add: digitOf_def)
  next
    case False
    then have "n mod 10 < 10" by simp
    with 1 False show ?thesis
      using digitChar_cases [of "n mod 10"] by (subst digits.simps) (simp add: digitOf_def)
  qed
qed

lemma parseInt_decimal:
  assumes "list_all decimal s" "s \<noteq> []"
  shows "parseInt s = Num (int (foldl (\<lambda>acc c. acc * 10 + digitOf c) 0 s))"
    and "parseInt (CHR ''-'' # s) = Num (- int (foldl (\<lambda>acc c. acc * 10 + digitOf c) 0 s))"
proof -
  obtain c r where s: "s = c # r" using assms(2) by (cases s) auto
  have c: "decimal c" using assms(1) s by simp
  have nothex: "take 2 s \<noteq> ''0x''" "take 2 s \<noteq> ''0X''"
  proof -
    have "\<And>b. take 2 s = [CHR ''0'', b] \<Longrightarrow> decimal b"
      using assms(1) by (metis in_set_takeD list.set_intros(1,2) list_all_iff)
    then show "take 2 s \<noteq> ''0x''" "take 2 s \<noteq> ''0X''"
      using decimal_props(5,6) by fastforce+
  qed
  have all: "takeWhile (isDigit 10) s = s"
    using assms(1) by (simp add: list_all_iff decimal_props(1))
  have ws: "dropWhile isWhiteSpace s = s"
    using s decimal_props(2) [OF c] by simp
  have sign: "hd s \<noteq> CHR ''-''" "hd s \<noteq> CHR ''+''"
    using s decimal_props(3,4) [OF c] by simp_all
  show "parseInt s = Num (int (foldl (\<lambda>acc c. acc * 10 + digitOf c) 0 s))"
    by (simp add: parseInt_def Let_def ws sign nothex all assms(2))
  have minus: "dropWhile isWhiteSpace (CHR ''-'' # s) = CHR ''-'' # s"
    by (simp add: isWhiteSpace_def)
  show "parseInt (CHR ''-'' # s) = Num (- int (foldl (\<lambda>acc c. acc * 10 + digitOf c) 0 s))"
    unfolding parseInt_def minus by (simp add: Let_def nothex all assms(2))
qed

lemma parseInt_toString: "parseInt (toString (Num n)) = Num n"
  using parseInt_decimal [of "digits (nat n)"] parseInt_decimal [of "digits (nat (- n))"]
  by (simp add: digits_decimal digits_value)

lemma toString_inject: "toString (Num a) = toString (Num b) \<Longrightarrow> a = b"
  by (metis parseInt_toString jsval.inject)

lemma toString_0: "toString (Num 0) = ''0''"
  by (simp add: digits.simps digitChar_def)

section \<open>The slider: slides and dots\<close>

lemma forEach_update_other:
  "r \<notin> set xs \<Longrightarrow> nodes (forEach (\<lambda>x i. updateElement x (h i)) xs start s) r = nodes s r"
  by (induction xs arbitrary: start s) (simp_all add: nodes_updateElement)

lemma forEach_update_nth:
  "distinct xs \<Longrightarrow> k < length xs \<Longrightarrow>
     nodes (forEach (\<lambda>x i. updateElement x (h i)) xs start s) (xs ! k) = h (start + k) (nodes s (xs ! k))"
proof (induction xs arbitrary: start s k)
  case Nil
  then show ?case by simp
next
  case (Cons x xs)
  show ?case
  proof (cases k)
    case 0
    with Cons.prems show ?thesis
      by (simp add: forEach_update_other nodes_updateElement)
  next
    case (Suc j)
    with Cons.prems have "j < length xs" "xs ! j \<noteq> x" "distinct xs"
      by auto
    with Cons.IH [of j "Suc start" "updateElement x (h start) s"] Suc show ?thesis
      by (simp add: nodes_updateElement)
  qed
qed

lemma toggleClass_Boolean:
  "toggleClass r c (Boolean b) =
     updateElement r (\<lambda>e. if b then classList_add c e else classList_remove c e)"
  by (rule ext) (simp add: toggleClass_def)

lemma element_fields_classList [simp]:
  "dataset (classList_add c e) = dataset e" "transform (classList_add c e) = transform e"
  "dataset (classList_remove c e) = dataset e" "transform (classList_remove c e) = transform e"
  by (simp_all add: classList_add_def classList_remove_def)

lemma forEach_update_preserves:
  assumes "\<And>i e. g (h i e) = g e"
  shows "g (nodes (forEach (\<lambda>x i. updateElement x (h i)) xs start s) r) = g (nodes s r)"
  by (induction xs arbitrary: start s) (simp_all add: nodes_updateElement assms)

lemma goTo_dataset: "dataset (nodes (goTo x s) r) = dataset (nodes s r)"
  unfolding goTo_def Let_def toggleClass_Boolean
  by (simp add: forEach_update_preserves [where g = dataset])

lemma classList_contains_transform [simp]:
  "classList_contains (e\<lparr>transform := v\<rparr>) c = classList_contains e c"
  by (simp add: classList_contains_def)

lemma goTo_other_class:
  "c \<noteq> ''dots__dot--active'' \<Longrightarrow>
     classList_contains (nodes (goTo x s) r) c = classList_contains (nodes s r) c"
  unfolding goTo_def Let_def toggleClass_Boolean
  by (simp add: forEach_update_preserves [where g = "\<lambda>e. classList_contains e c"]
      classList_contains_add classList_contains_remove)

lemma dotsGenerated_length:
  assumes "dotsGenerated s"
  shows "length (dotsContent s) = length (slides s)"
proof -
  let ?f = "\<lambda>r. (classList_contains (nodes s r) dotClassName, map_of (dataset (nodes s r)) ''slide'')"
  let ?g = "\<lambda>index. (True, Some (toString (Num (int index))))"
  from assms have "map ?f (dotsContent s) = map ?g [0 ..< length (slides s)]"
    by (simp only: dotsGenerated_def)
  then have "length (map ?f (dotsContent s)) = length (map ?g [0 ..< length (slides s)])"
    by (rule arg_cong)
  then show ?thesis
    by (simp only: length_map length_upt minus_nat.diff_0)
qed

lemma dotsGenerated_nth:
  assumes "dotsGenerated s" "k < length (slides s)"
  shows "classList_contains (nodes s (dotsContent s ! k)) dotClassName"
    and "map_of (dataset (nodes s (dotsContent s ! k))) ''slide'' = Some (toString (Num (int k)))"
proof -
  let ?f = "\<lambda>r. (classList_contains (nodes s r) dotClassName, map_of (dataset (nodes s r)) ''slide'')"
  let ?g = "\<lambda>index. (True, Some (toString (Num (int index))))"
  have k: "k < length (dotsContent s)"
    using assms by (simp only: dotsGenerated_length)
  from assms(1) have "map ?f (dotsContent s) = map ?g [0 ..< length (slides s)]"
    by (simp only: dotsGenerated_def)
  then have "map ?f (dotsContent s) ! k = map ?g [0 ..< length (slides s)] ! k"
    by (rule arg_cong)
  moreover have "map ?f (dotsContent s) ! k = ?f (dotsContent s ! k)"
    using k by (rule nth_map)
  moreover have "map ?g [0 ..< length (slides s)] ! k = ?g k"
    using assms(2) by simp
  ultimately have "?f (dotsContent s ! k) = ?g k"
    by (simp only:)
  then show "classList_contains (nodes s (dotsContent s ! k)) dotClassName"
    and "map_of (dataset (nodes s (dotsContent s ! k))) ''slide'' = Some (toString (Num (int k)))"
    by simp_all
qed

lemma dotsGenerated_query:
  assumes "dotsGenerated s"
  shows "querySelectorAll s (dotsContent s) [dotClassName] = dotsContent s"
proof -
  have "matches s r [dotClassName]" if "r \<in> set (dotsContent s)" for r
  proof -
    from that obtain k where "k < length (dotsContent s)" "r = dotsContent s ! k"
      by (auto simp: in_set_conv_nth)
    with dotsGenerated_nth(1) [OF assms, of k] show ?thesis
      using assms by (simp add: matches_def dotsGenerated_length)
  qed
  then show ?thesis
    by (simp add: querySelectorAll_def)
qed

lemma dotsGenerated_cong:
  assumes "dotsGenerated s" "dotsContent t = dotsContent s" "slides t = slides s"
    "\<And>r. classList_contains (nodes t r) dotClassName = classList_contains (nodes s r) dotClassName"
    "\<And>r. dataset (nodes t r) = dataset (nodes s r)"
  shows "dotsGenerated t"
  using assms by (simp add: dotsGenerated_def)

lemma dotsGenerated_goTo: "dotsGenerated s \<Longrightarrow> dotsGenerated (goTo x s)"
  by (erule dotsGenerated_cong) (simp_all add: goTo_fields goTo_dataset goTo_other_class dotClassName_def)

lemma goTo_transform:
  assumes "distinct (slides s)" "j < length (slides s)"
  shows "transform (nodes (goTo x s) (slides s ! j)) =
     ''translateX('' @ toString (js_mul (js_sub (Num (int j)) x) (Num 100)) @ ''%)''"
  using assms unfolding goTo_def Let_def toggleClass_Boolean
  by (simp add: forEach_update_preserves [where g = transform] forEach_update_nth)

lemma goTo_active:
  assumes "dotsGenerated s" "k < length (slides s)"
  shows "hasClass (goTo x s) (dotsContent s ! k) ''dots__dot--active'' = js_strict_eq (Num (int k)) x"
proof -
  define s2 where "s2 = forEach (\<lambda>slide index. updateElement slide (\<lambda>e. e\<lparr>transform :=
      ''translateX('' @ toString (js_mul (js_sub (Num (int index)) x) (Num 100)) @ ''%)''\<rparr>))
      (slides (s\<lparr>selectedSlide := x\<rparr>)) 0 (s\<lparr>selectedSlide := x\<rparr>)"
  have fields: "dotsContent s2 = dotsContent s" "slides s2 = slides s"
    by (simp_all add: s2_def forEach_preserves)
  have "dotsGenerated s2"
    using assms(1)
  proof (rule dotsGenerated_cong)
    show "classList_contains (nodes s2 r) dotClassName = classList_contains (nodes s r) dotClassName" for r
      unfolding s2_def by (simp add: forEach_update_preserves [where g = "\<lambda>e. classList_contains e dotClassName"])
    show "dataset (nodes s2 r) = dataset (nodes s r)" for r
      unfolding s2_def by (simp add: forEach_update_preserves [where g = dataset])
  qed (simp_all add: fields)
  then have q: "querySelectorAll s2 (dotsContent s2) [dotClassName] = dotsContent s"
    using dotsGenerated_query [of s2] by (simp add: fields)
  have d: "distinct (dotsContent s)" and k: "k < length (dotsContent s)"
    using assms by (simp_all add: dotsGenerated_def dotsGenerated_length)
  have "goTo x s = forEach (\<lambda>dot index. updateElement dot
      (\<lambda>e. if js_strict_eq (Num (int index)) x then classList_add ''dots__dot--active'' e
           else classList_remove ''dots__dot--active'' e)) (dotsContent s) 0 s2"
    unfolding goTo_def Let_def toggleClass_Boolean s2_def [symmetric] q ..
  then show ?thesis
    using forEach_update_nth [OF d k, where s = s2 and start = 0 and h = "\<lambda>index e.
        if js_strict_eq (Num (int index)) x then classList_add ''dots__dot--active'' e
        else classList_remove ''dots__dot--active'' e"]
    by (simp add: hasClass_def classList_contains_add classList_contains_remove)
qed

lemma reduce_html: "foldl (\<lambda>html index. html @ [g index]) acc xs = acc @ map g xs"
  by (induction xs arbitrary: acc) simp_all

lemma addDots_fields:
  "dotsContent (addDots s) = [freshElem s ..< freshElem s + length (slides s)]"
  "selectedSlide (addDots s) = selectedSlide s"
  by (simp_all add: addDots_def setInnerHTML_def reduce_html)

lemma nodes_addDots:
  "k < length (slides s) \<Longrightarrow> nodes (addDots s) (freshElem s + k) = dotElement k"
  by (simp add: addDots_def setInnerHTML_def reduce_html)

lemma dotsGenerated_addDots: "dotsGenerated (addDots s)"
proof -
  let ?n = "length (slides s)"
  let ?t = "addDots s"
  let ?f = "\<lambda>r. (classList_contains (nodes ?t r) dotClassName, map_of (dataset (nodes ?t r)) ''slide'')"
  let ?g = "\<lambda>index. (True, Some (toString (Num (int index))))"
  have "map ?f [freshElem s ..< freshElem s + ?n] = map ?g [0 ..< ?n]"
  proof (rule nth_equalityI)
    show "length (map ?f [freshElem s ..< freshElem s + ?n]) = length (map ?g [0 ..< ?n])"
      by simp
  next
    fix k
    assume "k < length (map ?f [freshElem s ..< freshElem s + ?n])"
    then have k: "k < ?n" by simp
    then have "?f (freshElem s + k) = ?g k"
      by (simp add: nodes_addDots dotElement_def classList_contains_def)
    with k show "map ?f [freshElem s ..< freshElem s + ?n] ! k = map ?g [0 ..< ?n] ! k"
      by simp
  qed
  then show ?thesis
    by (simp add: dotsGenerated_def addDots_fields)
qed

lemma indexInRange_goTo:
  "k < length (slides s) \<Longrightarrow> indexInRange (goTo (Num (int k)) s)"
  by (simp add: indexInRange_def goTo_fields)

lemma indexInRange_obtains:
  assumes "indexInRange s"
  obtains i where "selectedSlide s = Num (int i)" "i < length (slides s)"
proof -
  from assms obtain z where z: "selectedSlide s = Num z" "0 \<le> z" "z < int (length (slides s))"
    by (auto simp: indexInRange_def split: jsval.splits)
  then have "selectedSlide s = Num (int (nat z))" "nat z < length (slides s)"
    by simp_all
  then show thesis by (rule that)
qed

lemma next_slide_goTo:
  assumes "selectedSlide s = Num (int i)" "i < length (slides s)"
  shows "next_slide s = goTo (Num (int ((i + 1) mod length (slides s)))) s"
  using assms(1) js_rem_index [OF assms(2)] by (simp add: next_slide_def)

lemma previous_goTo:
  assumes "selectedSlide s = Num (int i)" "i < length (slides s)"
  shows "previous s = goTo (Num (int (if i = 0 then length (slides s) - 1 else i - 1))) s"
  using assms by (auto simp: previous_def)

lemma slider_inv_next:
  assumes "dotsGenerated s" "indexInRange s"
  shows "dotsGenerated (next_slide s) \<and> indexInRange (next_slide s)"
proof -
  from assms(2) obtain i where i: "selectedSlide s = Num (int i)" "i < length (slides s)"
    by (rule indexInRange_obtains)
  then have "0 < length (slides s)" by linarith
  then have "(i + 1) mod length (slides s) < length (slides s)"
    by (rule mod_less_divisor)
  then show ?thesis
    unfolding next_slide_goTo [OF i] using assms(1)
    by (simp only: dotsGenerated_goTo indexInRange_goTo)
qed

lemma slider_inv_previous:
  assumes "dotsGenerated s" "indexInRange s"
  shows "dotsGenerated (previous s) \<and> indexInRange (previous s)"
proof -
  from assms(2) obtain i where i: "selectedSlide s = Num (int i)" "i < length (slides s)"
    by (rule indexInRange_obtains)
  then have "(if i = 0 then length (slides s) - 1 else i - 1) < length (slides s)"
    by auto
  then show ?thesis
    unfolding previous_goTo [OF i] using assms(1)
    by (simp only: dotsGenerated_goTo indexInRange_goTo)
qed

lemma parseInt_digits: "parseInt (digits k) = Num (int k)"
  using parseInt_decimal(1) [of "digits k"] by (simp add: digits_decimal digits_value)

lemma dot_click:
  assumes "dotsGenerated s" "k < length (slides s)" "target evt = dotsContent s ! k"
  shows "slider_dispatch (SliderClick evt) s = Ok (goTo (Num (int k)) s)"
proof -
  have "matches s (target evt) [dotClassName]"
    using dotsGenerated_nth(1) [OF assms(1,2)] assms(3) by (simp add: matches_def)
  moreover have "parseInt (stringOf (map_of (dataset (nodes s (target evt))) ''slide'')) = Num (int k)"
    using dotsGenerated_nth(2) [OF assms(1,2)] assms(3) by (simp add: stringOf_def parseInt_digits)
  ultimately show ?thesis
    by (simp add: delegatedTargetSelectorEventListener_def delegatedEventListener_def
        selectorMatchingStrategy_def onDotClick_def)
qed

lemma slider_inv_dispatch:
  assumes "dotsGenerated s" "indexInRange s" "clickOnPage t s"
  shows "dotsGenerated (stateOf (slider_dispatch t s)) \<and> indexInRange (stateOf (slider_dispatch t s)) \<and>
         slides (stateOf (slider_dispatch t s)) = slides s \<and>
         (\<exists>s'. slider_dispatch t s = Ok s')"
proof (cases t)
  case LeftClick
  with slider_inv_previous [OF assms(1,2)] show ?thesis
    by (simp add: stateOf_def previous_fields)
next
  case RightClick
  with slider_inv_next [OF assms(1,2)] show ?thesis
    by (simp add: stateOf_def next_slide_fields)
next
  case (Keyup evt)
  with slider_inv_previous [OF assms(1,2)] slider_inv_next [OF assms(1,2)] assms(1,2) show ?thesis
    by (simp add: stateOf_def onKeyup_def previous_fields next_slide_fields)
next
  case (SliderClick evt)
  show ?thesis
  proof (cases "target evt \<in> set (dotsContent s)")
    case True
    then obtain k where k: "k < length (dotsContent s)" "target evt = dotsContent s ! k"
      by (auto simp: in_set_conv_nth)
    then have "k < length (slides s)"
      using assms(1) by (simp add: dotsGenerated_length)
    with dot_click [OF assms(1) this k(2)] SliderClick assms(1) show ?thesis
      by (simp add: stateOf_def dotsGenerated_goTo indexInRange_goTo goTo_fields)
  next
    case False
    with assms(3) SliderClick have "\<not> selectorMatchingStrategy [dotClassName] evt s"
      by (simp add: clickOnPage_def)
    with SliderClick assms(1,2) show ?thesis
      by (simp add: stateOf_def delegatedTargetSelectorEventListener_def delegatedEventListener_def)
  qed
qed

lemma slider_inv_run:
  assumes "dotsGenerated s" "indexInRange s" "clicksOnPage ts s"
  shows "dotsGenerated (slider_run ts s) \<and> indexInRange (slider_run ts s) \<and>
         slides (slider_run ts s) = slides s"
  using assms
proof (induction ts arbitrary: s)
  case Nil
  then show ?case by simp
next
  case (Cons t ts)
  from Cons.prems have "clickOnPage t s" "clicksOnPage ts (stateOf (slider_dispatch t s))"
    by simp_all
  with slider_inv_dispatch [OF Cons.prems(1,2), of t] Cons.IH [of "stateOf (slider_dispatch t s)"]
  show ?case by simp
qed

lemma slider_inv_init:
  assumes "1 \<le> length (slides s0)"
  shows "dotsGenerated (slider_init s0) \<and> indexInRange (slider_init s0) \<and>
         slides (slider_init s0) = slides s0 \<and> selectedSlide (slider_init s0) = Num 0"
  using assms dotsGenerated_goTo [OF dotsGenerated_addDots, of "Num 0" s0]
  by (auto simp: slider_init_def indexInRange_def goTo_fields)

lemma translateX_zero:
  "(''translateX('' @ toString (Num a) @ ''%)'' = ''translateX(0%)'') = (a = 0)"
proof -
  have "(toString (Num a) @ ''%)'' = ''0'' @ ''%)'') = (toString (Num a) = ''0'')"
    by (rule append_same_eq)
  moreover have "(toString (Num a) = ''0'') = (a = 0)"
  proof
    assume "toString (Num a) = ''0''"
    then have "toString (Num a) = toString (Num 0)"
      by (simp only: toString_0)
    then show "a = 0" by (rule toString_inject)
  next
    assume "a = 0"
    then show "toString (Num a) = ''0''" by (simp only: toString_0)
  qed
  ultimately show ?thesis by (simp del: toString.simps)
qed

lemma slider_run_dotsContent:
  "dotsContent (slider_run ts s) = dotsContent s"
proof (induction ts arbitrary: s)
  case Nil
  show ?case by simp
next
  case (Cons t ts)
  have "dotsContent (stateOf (slider_dispatch t s)) = dotsContent s"
    by (cases t)
      (simp_all add: stateOf_def previous_fields next_slide_fields onKeyup_def goTo_fields
        delegatedTargetSelectorEventListener_def delegatedEventListener_def onDotClick_def)
  with Cons show ?case by simp
qed

lemma example_slider_dots:
  "dotsContent (slider_init example_slider_page) = [4, 5, 6]"
  by (simp add: slider_init_def goTo_fields addDots_fields example_slider_page_def upt_rec)

text \<open>
  Claim C3. With at least one slide, the initialisation selects index 0, and after any
  sequence of clicks on the two buttons, arrow keys and clicks inside the slider (on a
  dot, or on an element that is no dot and lies in none) the selected index is an
  integer from 0 up to, and without, the number of slides.
\<close>

theorem selected_index_in_range:
  assumes "1 \<le> length (slides s0)" "clicksOnPage ts (slider_init s0)"
  shows "selectedSlide (slider_init s0) = Num 0 \<and>
         indexInRange (slider_run ts (slider_init s0)) \<and>
         slides (slider_run ts (slider_init s0)) = slides s0"
  using slider_inv_init [OF assms(1)] slider_inv_run [of "slider_init s0" ts] assms(2)
  by simp

theorem selected_index_in_range_witness:
  "selectedSlide (slider_init example_slider_page) = Num 0 \<and>
   indexInRange (slider_run [RightClick, SliderClick \<lparr>target = 6, key = []\<rparr>, LeftClick,
      Keyup \<lparr>target = 0, key = ''ArrowRight''\<rparr>] (slider_init example_slider_page))"
proof -
  have "1 \<le> length (slides example_slider_page)"
    by (simp add: example_slider_page_def)
  moreover have "clicksOnPage [RightClick, SliderClick \<lparr>target = 6, key = []\<rparr>, LeftClick,
      Keyup \<lparr>target = 0, key = ''ArrowRight''\<rparr>] (slider_init example_slider_page)"
    by (simp add: clickOnPage_def stateOf_def next_slide_fields example_slider_dots)
  ultimately show ?thesis
    using selected_index_in_range [of example_slider_page
      "[RightClick, SliderClick \<lparr>target = 6, key = []\<rparr>, LeftClick, Keyup \<lparr>target = 0, key = ''ArrowRight''\<rparr>]"]
    by simp
qed

text \<open>
  Claim C2. On every page the slider reaches from its initialisation, with distinct
  slides, \<open>goTo(i)\<close> for an index \<open>i\<close> below the number of slides selects \<open>i\<close>, gives
  the slide at each index \<open>j\<close> the transform \<open>translateX((j - i) * 100%)\<close>, which is
  \<open>translateX(0%)\<close> exactly for \<open>j = i\<close>, and leaves the class \<open>dots__dot--active\<close> on
  the dot at index \<open>j\<close> exactly for \<open>j = i\<close>; the dots are the elements the query
  \<open>.dots__dot\<close> finds in the container, one per slide.
\<close>

theorem goTo_positions_slides_and_dots:
  assumes "1 \<le> length (slides s0)" "distinct (slides s0)" "clicksOnPage ts (slider_init s0)"
    and "s = slider_run ts (slider_init s0)"
    and "i < length (slides s0)" "j < length (slides s0)"
  shows "selectedSlide (goTo (Num (int i)) s) = Num (int i) \<and>
         transform (nodes (goTo (Num (int i)) s) (slides s0 ! j)) =
           ''translateX('' @ toString (Num ((int j - int i) * 100)) @ ''%)'' \<and>
         (((int j - int i) * 100 = 0) = (j = i)) \<and>
         ((transform (nodes (goTo (Num (int i)) s) (slides s0 ! j)) = ''translateX(0%)'') = (j = i)) \<and>
         querySelectorAll s (dotsContent s) [dotClassName] = dotsContent s \<and>
         length (dotsContent s) = length (slides s0) \<and>
         hasClass (goTo (Num (int i)) s) (dotsContent s ! j) ''dots__dot--active'' = (j = i)"
proof -
  have inv: "dotsGenerated s" "slides s = slides s0"
    using slider_inv_init [OF assms(1)] slider_inv_run [of "slider_init s0" ts] assms(3,4)
    by simp_all
  have t: "transform (nodes (goTo (Num (int i)) s) (slides s0 ! j)) =
      ''translateX('' @ toString (Num ((int j - int i) * 100)) @ ''%)''"
    using goTo_transform [of s j "Num (int i)"] assms(2,6) inv(2) by simp
  have z: "((int j - int i) * 100 = 0) = (j = i)"
    by simp
  have a: "hasClass (goTo (Num (int i)) s) (dotsContent s ! j) ''dots__dot--active'' = (j = i)"
    using goTo_active [OF inv(1), of j "Num (int i)"] assms(6) inv(2) by simp
  show ?thesis
    using t z a dotsGenerated_query [OF inv(1)] dotsGenerated_length [OF inv(1)] inv(2)
    by (simp only: goTo_fields translateX_zero simp_thms)
qed

theorem goTo_positions_slides_and_dots_witness:
  "transform (nodes (goTo (Num 2) (slider_run [RightClick] (slider_init example_slider_page))) 0)
     = ''translateX(-200%)'' \<and>
   transform (nodes (goTo (Num 2) (slider_run [RightClick] (slider_init example_slider_page))) 2)
     = ''translateX(0%)'' \<and>
   hasClass (goTo (Num 2) (slider_run [RightClick] (slider_init example_slider_page))) 6 ''dots__dot--active'' \<and>
   \<not> hasClass (goTo (Num 2) (slider_run [RightClick] (slider_init example_slider_page))) 4 ''dots__dot--active''"
proof -
  let ?s = "slider_run [RightClick] (slider_init example_slider_page)"
  have d: "dotsContent ?s = [4, 5, 6]"
    by (simp only: slider_run_dotsContent example_slider_dots)
  have p: "1 \<le> length (slides example_slider_page)" "distinct (slides example_slider_page)"
    "clicksOnPage [RightClick] (slider_init example_slider_page)"
    "(2::nat) < length (slides example_slider_page)" "(0::nat) < length (slides example_slider_page)"
    by (simp_all add: example_slider_page_def clickOnPage_def)
  have "toString (Num (- 200)) = ''-200''"
    by (simp add: digits.simps digitChar_def)
  with goTo_positions_slides_and_dots [OF p(1,2,3) refl p(4,5)]
    goTo_positions_slides_and_dots [OF p(1,2,3) refl p(4,4)] d
  show ?thesis
    by (simp add: example_slider_page_def toString_0 del: toString.simps)
qed

section \<open>The tabs\<close>

lemma tabs_updateElement [simp]:
  "operationsZone (updateElement r f s) = operationsZone s"
  "tabButtons (updateElement r f s) = tabButtons s"
  "tabs (updateElement r f s) = tabs s"
  by (simp_all add: updateElement_def)

lemma forEach_remove_contains:
  "classList_contains (nodes (forEach (\<lambda>x _. updateElement x (classList_remove c)) xs start s) r) x =
     (classList_contains (nodes s r) x \<and> (r \<in> set xs \<longrightarrow> x \<noteq> c))"
  by (induction xs arbitrary: start s) (auto simp: nodes_updateElement classList_contains_remove)

lemma querySelector_cong:
  assumes "\<And>r. matches t r sel = matches s r sel"
  shows "querySelector t xs sel = querySelector s xs sel"
  by (simp add: querySelector_def assms)

lemma querySelector_Some:
  "querySelector s xs sel = Some p \<Longrightarrow> matches s p sel \<and> p \<in> set xs"
  unfolding querySelector_def by (metis find_Some_iff nth_mem)

text \<open>
  Claim C4. A click in the tab container whose target lies in one of the tab buttons
  \<open>b\<close> of the controller is handled; when the \<open>data-tab\<close> key of \<open>b\<close> is an
  identifier other than \<open>active\<close> and the first element of the zone with the class
  \<open>operations__content--key\<close> is one of the panels of the controller, the listener
  completes, and after it the button \<open>b\<close> is the one tab button with the class
  \<open>operations__tab--active\<close>, that panel is the one panel with the class
  \<open>operations__content--active\<close>, and the panel carries the key of the button.
\<close>

theorem tab_click_activates_one_button_and_panel:
  assumes "closest s (target evt) tabBtnSelector = Some b" "b \<in> set (tabButtons s)"
    and "tab = stringOf (map_of (dataset (nodes s b)) ''tab'')" "cssIdent tab" "tab \<noteq> ''active''"
    and "querySelector s (operationsZone s) [''operations__content--'' @ tab] = Some panel"
      "panel \<in> set (tabs s)"
    and "s' = stateOf (tabContainerClick evt s)"
  shows "tabContainerClick evt s = Ok s' \<and>
         (\<forall>x \<in> set (tabButtons s). hasClass s' x ''operations__tab--active'' = (x = b)) \<and>
         (\<forall>x \<in> set (tabs s). hasClass s' x ''operations__content--active'' = (x = panel)) \<and>
         hasClass s' panel (''operations__content--'' @ tab) \<and>
         tabButtons s' = tabButtons s \<and> tabs s' = tabs s"
proof -
  let ?cls = "''operations__content--'' @ tab"
  define s1 where "s1 = forEach (\<lambda>btn _. updateElement btn (classList_remove ''operations__tab--active''))
      (tabButtons s) 0 s"
  define s2 where "s2 = forEach (\<lambda>zone _. updateElement zone (classList_remove ''operations__content--active''))
      (tabs s1) 0 s1"
  define s3 where "s3 = updateElement b (classList_add ''operations__tab--active'') s2"
  define s4 where "s4 = updateElement panel (classList_add ''operations__content--active'') s3"
  have f1: "tabs s1 = tabs s" "tabButtons s1 = tabButtons s" "operationsZone s1 = operationsZone s"
    by (simp_all add: s1_def forEach_preserves)
  have f2: "tabs s2 = tabs s" "tabButtons s2 = tabButtons s" "operationsZone s2 = operationsZone s"
    by (simp_all add: s2_def forEach_preserves f1)
  have c2: "classList_contains (nodes s2 r) x =
      (classList_contains (nodes s r) x \<and> (r \<in> set (tabButtons s) \<longrightarrow> x \<noteq> ''operations__tab--active'')
        \<and> (r \<in> set (tabs s) \<longrightarrow> x \<noteq> ''operations__content--active''))" for r x
    by (simp add: s2_def s1_def [symmetric] f1 forEach_remove_contains) (simp add: s1_def forEach_remove_contains)
  have c3: "classList_contains (nodes s3 r) x =
      ((r = b \<and> x = ''operations__tab--active'') \<or> classList_contains (nodes s2 r) x)" for r x
    by (auto simp: s3_def nodes_updateElement classList_contains_add)
  have c4: "classList_contains (nodes s4 r) x =
      ((r = panel \<and> x = ''operations__content--active'') \<or> classList_contains (nodes s3 r) x)" for r x
    by (auto simp: s4_def nodes_updateElement classList_contains_add)
  have d3: "dataset (nodes s3 r) = dataset (nodes s r)" for r
    by (simp add: s3_def s2_def s1_def nodes_updateElement forEach_update_preserves [where g = dataset])
  have cls: "?cls \<noteq> ''operations__tab--active''" "?cls \<noteq> ''operations__content--active''"
    using assms(5) by simp_all
  have "matches s3 r [?cls] = matches s r [?cls]" for r
    using cls by (simp add: matches_def c3 c2)
  then have q: "querySelector s3 (operationsZone s3) [?cls] = Some panel"
    using assms(6) querySelector_cong [of s3 "[?cls]" s "operationsZone s"]
    by (simp add: s3_def f2)
  have "onTabClick (target evt) evt s = Ok s4"
    unfolding onTabClick_def Let_def s1_def [symmetric] s2_def [symmetric] assms(1) option.case
      s3_def [symmetric] d3 assms(3) [symmetric] q s4_def [symmetric] ..
  then have run: "tabContainerClick evt s = Ok s4"
    using assms(1)
    by (simp add: tabContainerClick_def delegatedTargetSelectorEventListener_def
        delegatedEventListener_def selectorMatchingStrategy_closest)
  then have s': "s' = s4"
    using assms(8) by (simp add: stateOf_def)
  have "matches s panel [?cls]"
    using querySelector_Some [OF assms(6)] by simp
  then have p: "hasClass s4 panel ?cls"
    using cls by (simp add: hasClass_def matches_def c4 c3 c2)
  have b: "hasClass s4 x ''operations__tab--active'' = (x = b)" if "x \<in> set (tabButtons s)" for x
    using that by (simp add: hasClass_def c4 c3 c2)
  have t: "hasClass s4 x ''operations__content--active'' = (x = panel)" if "x \<in> set (tabs s)" for x
    using that by (simp add: hasClass_def c4 c3 c2)
  show ?thesis
    using run p b t by (simp add: s' s4_def s3_def f2)
qed

lemma example_tabs_lists:
  "tabButtons example_tabs_page = [2, 3, 4]" "tabs example_tabs_page = [6, 7, 8]"
  "operationsZone example_tabs_page = [1, 2, 3, 5, 4, 6, 7, 8]"
  by (simp_all add: example_tabs_page_def tabs_init_def example_tabs_document_def querySelectorAll_def
      matches_def classList_contains_def example_element_def example_tab_element_def tabBtnSelector_def)

theorem tab_click_activates_one_button_and_panel_witness:
  "tabContainerClick \<lparr>target = 5, key = []\<rparr> example_tabs_page =
     Ok (stateOf (tabContainerClick \<lparr>target = 5, key = []\<rparr> example_tabs_page)) \<and>
   \<not> hasClass (stateOf (tabContainerClick \<lparr>target = 5, key = []\<rparr> example_tabs_page)) 2 ''operations__tab--active'' \<and>
   hasClass (stateOf (tabContainerClick \<lparr>target = 5, key = []\<rparr> example_tabs_page)) 3 ''operations__tab--active'' \<and>
   \<not> hasClass (stateOf (tabContainerClick \<lparr>target = 5, key = []\<rparr> example_tabs_page)) 4 ''operations__tab--active'' \<and>
   \<not> hasClass (stateOf (tabContainerClick \<lparr>target = 5, key = []\<rparr> example_tabs_page)) 6 ''operations__content--active'' \<and>
   hasClass (stateOf (tabContainerClick \<lparr>target = 5, key = []\<rparr> example_tabs_page)) 7 ''operations__content--active'' \<and>
   \<not> hasClass (stateOf (tabContainerClick \<lparr>target = 5, key = []\<rparr> example_tabs_page)) 8 ''operations__content--active''"
proof -
  have nodes: "nodes example_tabs_page = nodes example_tabs_document"
    "parentChain example_tabs_page = parentChain example_tabs_document"
    by (simp_all add: example_tabs_page_def tabs_init_def)
  have 1: "closest example_tabs_page (target \<lparr>target = 5, key = []\<rparr>) tabBtnSelector = Some 3"
    by (simp add: closest_def matches_def nodes example_tabs_document_def classList_contains_def
        example_element_def example_tab_element_def tabBtnSelector_def)
  have 2: "3 \<in> set (tabButtons example_tabs_page)" "7 \<in> set (tabs example_tabs_page)"
    by (simp_all add: example_tabs_lists)
  have 3: "''2'' = stringOf (map_of (dataset (nodes example_tabs_page 3)) ''tab'')"
    "cssIdent ''2''" "''2'' \<noteq> ''active''"
    by (simp_all add: nodes example_tabs_document_def example_tab_element_def stringOf_def cssIdent_def)
  have 4: "querySelector example_tabs_page (operationsZone example_tabs_page) [''operations__content--'' @ ''2''] = Some 7"
    by (simp add: example_tabs_lists querySelector_def matches_def nodes example_tabs_document_def
        classList_contains_def example_element_def example_tab_element_def)
  from tab_click_activates_one_button_and_panel [OF 1 2(1) 3 4 2(2) refl]
  show ?thesis
    by (simp add: example_tabs_lists)
qed

section \<open>The lazy images\<close>

lemma lazy_updateElement [simp]:
  "observed (updateElement r f s) = observed s"
  "loadListeners (updateElement r f s) = loadListeners s"
  by (simp_all add: updateElement_def)

text \<open>
  A notification whose first entry intersects: the image of that entry is no longer
  observed, its source is the value of \<open>data-src\<close>, it has one \<open>load\<close> listener more,
  and no class list has changed. A second such notification leaves the source as it
  is. The \<open>load\<close> event of an image with a listener removes \<open>lazy-img\<close>.
\<close>

lemma lazyLoaderCallback_first_entry:
  assumes "isIntersecting entry" "s' = stateOf (lazyLoaderCallback (entry # rest) s)"
  shows "lazyLoaderCallback (entry # rest) s = Ok s'"
    and "entryTarget entry \<notin> set (observed s')"
    and "src (nodes s' (entryTarget entry)) =
           stringOf (map_of (dataset (nodes s (entryTarget entry))) ''src'')"
    and "loadListeners s' (entryTarget entry) = Suc (loadListeners s (entryTarget entry))"
    and "classList (nodes s' r) = classList (nodes s r)"
    and "dataset (nodes s' r) = dataset (nodes s r)"
  using assms by (simp_all add: lazyLoaderCallback_def Let_def stateOf_def nodes_updateElement)

lemma lazyLoaderCallback_again:
  assumes "isIntersecting entry" "s' = stateOf (lazyLoaderCallback (entry # rest) s)"
    and "isIntersecting entry'" "entryTarget entry' = entryTarget entry"
    and "s'' = stateOf (lazyLoaderCallback (entry' # rest') s')"
  shows "src (nodes s'' r) = src (nodes s' r)"
  using assms by (simp add: lazyLoaderCallback_def Let_def stateOf_def nodes_updateElement)

lemma lazyLoaderCallback_not_intersecting:
  "\<not> isIntersecting entry \<Longrightarrow> lazyLoaderCallback (entry # rest) s = Ok s"
  by (simp add: lazyLoaderCallback_def)

lemma funpow_remove_class:
  "((\<lambda>d. updateElement r (classList_remove c) d) ^^ n) s =
     (if n = 0 then s else updateElement r (classList_remove c) s)"
proof (induction n)
  case 0
  show ?case by simp
next
  case (Suc n)
  have "updateElement r (classList_remove c) (updateElement r (classList_remove c) s) =
      updateElement r (classList_remove c) s"
    by (simp add: updateElement_def classList_remove_def)
  with Suc show ?case by simp
qed

lemma onLoad_class:
  "hasClass (onLoad r s) x c =
     (hasClass s x c \<and> \<not> (x = r \<and> c = ''lazy-img'' \<and> 0 < loadListeners s r))"
  by (auto simp: onLoad_def funpow_remove_class hasClass_def nodes_updateElement classList_contains_remove)

text \<open>
  Claim C8 at a notification with two intersecting entries: the callback handles the
  first entry only. The image of the second entry (element 2) stays observed, keeps
  its placeholder source and gets no \<open>load\<close> listener.
\<close>

theorem later_entries_are_ignored:
  "lazyLoaderCallback
      [\<lparr>entryTarget = 1, isIntersecting = True\<rparr>, \<lparr>entryTarget = 2, isIntersecting = True\<rparr>]
      example_lazy_page
     = Ok (stateOf (lazyLoaderCallback
         [\<lparr>entryTarget = 1, isIntersecting = True\<rparr>, \<lparr>entryTarget = 2, isIntersecting = True\<rparr>]
         example_lazy_page)) \<and>
   observed (stateOf (lazyLoaderCallback
      [\<lparr>entryTarget = 1, isIntersecting = True\<rparr>, \<lparr>entryTarget = 2, isIntersecting = True\<rparr>]
      example_lazy_page)) = [2] \<and>
   src (nodes (stateOf (lazyLoaderCallback
      [\<lparr>entryTarget = 1, isIntersecting = True\<rparr>, \<lparr>entryTarget = 2, isIntersecting = True\<rparr>]
      example_lazy_page)) 1) = ''img/digital.jpg'' \<and>
   src (nodes (stateOf (lazyLoaderCallback
      [\<lparr>entryTarget = 1, isIntersecting = True\<rparr>, \<lparr>entryTarget = 2, isIntersecting = True\<rparr>]
      example_lazy_page)) 2) = ''img/grow-lazy.jpg'' \<and>
   stringOf (map_of (dataset (nodes example_lazy_page 2)) ''src'') = ''img/grow.jpg'' \<and>
   loadListeners (stateOf (lazyLoaderCallback
      [\<lparr>entryTarget = 1, isIntersecting = True\<rparr>, \<lparr>entryTarget = 2, isIntersecting = True\<rparr>]
      example_lazy_page)) 2 = 0"
  by (simp add: lazyLoaderCallback_def Let_def stateOf_def stringOf_def example_lazy_page_def
      updateElement_def)

end
